theory Spec2Isabelle
  imports Main "HOL-Library.FSet" "HOL-Library.Sublist"
begin

section \<open>The data registry facade of \<open>packages/dataregistry/src/dataregistry.ts\<close>\<close>

text \<open>
  The class \<open>DataRegistry\<close> composes a converter registry and a dataset registry. Both
  are interfaces (\<open>IConverterRegistry\<close>, \<open>IDatasetRegistry\<close>) handed to the constructor,
  so the embedding takes them as records of operations. The dataset registry is the only
  mutable collaborator: its operations act on a store of an arbitrary type \<open>'s\<close>, passed
  explicitly. Every call the facade makes on a collaborator is also written to a log, so
  that statements about which calls happen, and in which order, can be made.
\<close>

subsection \<open>Data\<close>

type_synonym URL = string
type_synonym mime = string

text \<open>
  What a JavaScript call can throw. \<open>TypeError\<close> is what the runtime raises when a
  property of \<open>undefined\<close> is read or a value that is no function is called; \<open>Thrown\<close>
  is an error raised by a collaborator, with its message.
\<close>

datatype error = TypeError | Thrown string

text \<open>
  The payload of a dataset has type \<open>any\<close> in \<open>convertByURL\<close> and type
  \<open>() => Promise<void>\<close> in \<open>viewURL\<close>. A payload is either a plain value or a
  function of no argument; calling the function gives a promise that resolves (\<open>None\<close>)
  or rejects with an error.
\<close>

datatype payload = Value string | Callable "error option"

record Dataset =
  mimeType :: mime
  url :: URL
  dataset_data :: payload

text \<open>The result of asking an async iterator for its next element.\<close>

datatype 'g IteratorResult = Yield Dataset 'g | Return | Throw error

text \<open>
  One entry per call on a collaborator: the call and, where the facade branches on it,
  its result. \<open>Next\<close> is one request to the iterator of \<open>converters.convert\<close>:
  \<open>Inr (Some d)\<close> when it yields \<open>d\<close>, \<open>Inr None\<close> when it is done, \<open>Inl e\<close> when
  it throws.
\<close>

datatype event =
    ResolveDataSet URL
  | Contains Dataset bool
  | Publish Dataset
  | FilterByURL URL
  | MimeTypesForURL URL
  | ListTargetMimeTypes URL "mime fset"
  | Convert "Dataset list" mime
  | Next "error + Dataset option"
  | DataCall Dataset

text \<open>
  \<open>IDatasetRegistry\<close>: the four operations the facade uses. \<open>publish\<close> returns the
  disposable handle (of a type \<open>'h\<close> the facade never looks into) and the new store.
\<close>

record ('s, 'h) IDatasetRegistry =
  contains :: "'s \<Rightarrow> Dataset \<Rightarrow> bool"
  publish :: "'s \<Rightarrow> Dataset \<Rightarrow> 'h \<times> 's"
  filterByURL :: "'s \<Rightarrow> URL \<Rightarrow> Dataset list"
  mimeTypesForURL :: "'s \<Rightarrow> URL \<Rightarrow> mime fset"

text \<open>
  \<open>IConverterRegistry\<close>: \<open>listTargetMimeTypes\<close> takes the URL and the seed mime types and
  returns a \<open>Set<string>\<close>. \<open>convert\<close> returns an async iterator; \<open>'g\<close> is the type of
  its internal state and \<open>iter_next\<close> (the \<open>next\<close> of the iterator) resumes it. A
  resumed converter may read the store (a conversion step may need what was published
  before it), and may go on for ever.
\<close>

record ('s, 'g) IConverterRegistry =
  listTargetMimeTypes :: "URL \<Rightarrow> mime fset \<Rightarrow> mime fset"
  convert :: "Dataset list \<Rightarrow> mime \<Rightarrow> 'g"
  iter_next :: "'g \<Rightarrow> 's \<Rightarrow> 'g IteratorResult"

text \<open>\<open>IDataRegistryConfig\<close>, which is all a \<open>DataRegistry\<close> holds.\<close>

record ('s, 'h, 'g) DataRegistry =
  converters :: "('s, 'g) IConverterRegistry"
  data :: "('s, 'h) IDatasetRegistry"

text \<open>
  The names imported from \<open>./resolvers\<close> and \<open>./viewers\<close>. \<open>resolveMimeType\<close> is used
  as a value, an element of the seed array of \<open>hasConversions\<close>; the other three are
  called.
\<close>

record Imports =
  resolveDataSet :: "URL \<Rightarrow> Dataset"
  resolveMimeType :: mime
  createViewerMimeType :: "string \<Rightarrow> mime"
  extractViewerLabel :: "mime \<Rightarrow> string option"

text \<open>The mutable state: the dataset store and the log of calls made so far.\<close>

record 's state =
  store :: 's
  log :: "event list"

definition emit :: "event \<Rightarrow> 's state \<Rightarrow> 's state" where
  "emit e \<sigma> = \<sigma>\<lparr>log := log \<sigma> @ [e]\<rparr>"

subsection \<open>The operations of the facade\<close>

text \<open>
  \<open>registerURL\<close>: resolve, test containment, publish when absent. \<open>None\<close> is \<open>null\<close>.
\<close>

definition registerURL ::
  "Imports \<Rightarrow> ('s, 'h, 'g) DataRegistry \<Rightarrow> URL \<Rightarrow> 's state \<Rightarrow> 'h option \<times> 's state" where
  "registerURL M R u \<sigma> =
     (let dataset = resolveDataSet M u;
          \<sigma>1 = emit (ResolveDataSet u) \<sigma>
      in if contains (data R) (store \<sigma>1) dataset
         then (None, emit (Contains dataset True) \<sigma>1)
         else (let \<sigma>2 = emit (Contains dataset False) \<sigma>1;
                   (h, s') = publish (data R) (store \<sigma>2) dataset
               in (Some h, emit (Publish dataset) (\<sigma>2\<lparr>store := s'\<rparr>))))"

text \<open>\<open>hasConversions\<close>: the seed array is \<open>[resolveMimeType]\<close>.\<close>

definition hasConversions ::
  "Imports \<Rightarrow> ('s, 'h, 'g) DataRegistry \<Rightarrow> URL \<Rightarrow> 's state \<Rightarrow> bool \<times> 's state" where
  "hasConversions M R u \<sigma> =
     (let seeds = {|resolveMimeType M|}
      in (1 < fcard (listTargetMimeTypes (converters R) u seeds),
          emit (ListTargetMimeTypes u seeds) \<sigma>))"

definition possibleMimeTypesForURL ::
  "('s, 'h, 'g) DataRegistry \<Rightarrow> URL \<Rightarrow> 's state \<Rightarrow> mime fset \<times> 's state" where
  "possibleMimeTypesForURL R u \<sigma> =
     (let seeds = mimeTypesForURL (data R) (store \<sigma>) u;
          \<sigma>1 = emit (MimeTypesForURL u) \<sigma>
      in (listTargetMimeTypes (converters R) u seeds,
          emit (ListTargetMimeTypes u seeds) \<sigma>1))"

text \<open>
  \<open>viewersForURL\<close>: map \<open>extractViewerLabel\<close> over the possible mime types, drop the
  \<open>null\<close>s, and build a set of what is left.
\<close>

definition viewersForURL ::
  "Imports \<Rightarrow> ('s, 'h, 'g) DataRegistry \<Rightarrow> URL \<Rightarrow> 's state \<Rightarrow> string fset \<times> 's state" where
  "viewersForURL M R u \<sigma> =
     (let (possible, \<sigma>1) = possibleMimeTypesForURL R u \<sigma>
      in (the |`| ffilter (\<lambda>label. label \<noteq> None) (extractViewerLabel M |`| possible), \<sigma>1))"

text \<open>
  The body of the \<open>for await\<close> loop of \<open>convertByURL\<close>, from the iterator state \<open>g\<close>
  with \<open>finalDataSet\<close> as assigned so far (\<open>None\<close> is \<open>undefined\<close>). The loop ends when
  the iterator is done or throws; an iterator that yields for ever never lets it end, and
  then the value is \<open>None\<close>.
\<close>

partial_function (option) forAwait ::
  "('s, 'h, 'g) DataRegistry \<Rightarrow> 'g \<Rightarrow> Dataset option \<Rightarrow> 's state
     \<Rightarrow> ((error + Dataset option) \<times> 's state) option" where
  "forAwait R g finalDataSet \<sigma> =
     (case iter_next (converters R) g (store \<sigma>) of
        Return \<Rightarrow> Some (Inr finalDataSet, emit (Next (Inr None)) \<sigma>)
      | Throw e \<Rightarrow> Some (Inl e, emit (Next (Inl e)) \<sigma>)
      | Yield dataset g' \<Rightarrow>
          (let \<sigma>1 = emit (Next (Inr (Some dataset))) \<sigma>
           in if \<not> contains (data R) (store \<sigma>1) dataset
              then (let \<sigma>2 = emit (Contains dataset False) \<sigma>1;
                        (h, s') = publish (data R) (store \<sigma>2) dataset
                    in forAwait R g' (Some dataset) (emit (Publish dataset) (\<sigma>2\<lparr>store := s'\<rparr>)))
              else forAwait R g' (Some dataset) (emit (Contains dataset True) \<sigma>1)))"

text \<open>
  \<open>convertByURL\<close>: the sources are \<open>data.filterByURL(url)\<close>; the result is
  \<open>finalDataSet!\<close>, which is \<open>undefined\<close> when the loop body never ran.
\<close>

definition convertByURL ::
  "('s, 'h, 'g) DataRegistry \<Rightarrow> URL \<Rightarrow> mime \<Rightarrow> 's state
     \<Rightarrow> ((error + Dataset option) \<times> 's state) option" where
  "convertByURL R u targetMimeType \<sigma> =
     (let sources = filterByURL (data R) (store \<sigma>) u;
          \<sigma>1 = emit (FilterByURL u) \<sigma>;
          g = convert (converters R) sources targetMimeType;
          \<sigma>2 = emit (Convert sources targetMimeType) \<sigma>1
      in forAwait R g None \<sigma>2)"

text \<open>
  \<open>viewURL\<close>: await \<open>convertByURL\<close>, then call \<open>viewer.data()\<close> and await it. Reading
  \<open>data\<close> of \<open>undefined\<close> and calling a payload that is no function raise a
  \<open>TypeError\<close>.
\<close>

definition viewURL ::
  "Imports \<Rightarrow> ('s, 'h, 'g) DataRegistry \<Rightarrow> URL \<Rightarrow> string \<Rightarrow> 's state
     \<Rightarrow> ((error + unit) \<times> 's state) option" where
  "viewURL M R u label \<sigma> =
     (case convertByURL R u (createViewerMimeType M label) \<sigma> of
        None \<Rightarrow> None
      | Some (Inl e, \<sigma>1) \<Rightarrow> Some (Inl e, \<sigma>1)
      | Some (Inr None, \<sigma>1) \<Rightarrow> Some (Inl TypeError, \<sigma>1)
      | Some (Inr (Some viewer), \<sigma>1) \<Rightarrow>
          (case dataset_data viewer of
             Value v \<Rightarrow> Some (Inl TypeError, \<sigma>1)
           | Callable r \<Rightarrow>
               (case r of
                  None \<Rightarrow> Some (Inr (), emit (DataCall viewer) \<sigma>1)
                | Some e \<Rightarrow> Some (Inl e, emit (DataCall viewer) \<sigma>1))))"

subsection \<open>The sequence a call consumes\<close>

text \<open>
  The store after the loop body of \<open>convertByURL\<close> has run on \<open>dataset\<close>: unchanged
  when the store contains it, what \<open>publish\<close> returns otherwise.
\<close>

definition after_body :: "('s, 'h, 'g) DataRegistry \<Rightarrow> 's \<Rightarrow> Dataset \<Rightarrow> 's" where
  "after_body R s dataset =
     (if contains (data R) s dataset then s else snd (publish (data R) s dataset))"

text \<open>
  What the iterator gives when the loop drives it from state \<open>g\<close> and store \<open>s\<close>: the
  datasets it yields, in order, and how it ends (\<open>None\<close>: done; \<open>Some e\<close>: it throws
  \<open>e\<close>). Each resumption sees the store the loop body has left. The first argument bounds
  the number of requests; the value is \<open>None\<close> when the iterator has not ended by then.
\<close>

fun produce ::
  "nat \<Rightarrow> ('s, 'h, 'g) DataRegistry \<Rightarrow> 'g \<Rightarrow> 's \<Rightarrow> (Dataset list \<times> error option) option" where
  "produce 0 R g s = None"
| "produce (Suc n) R g s =
     (case iter_next (converters R) g s of
        Return \<Rightarrow> Some ([], None)
      | Throw e \<Rightarrow> Some ([], Some e)
      | Yield d g' \<Rightarrow>
          (case produce n R g' (after_body R s d) of
             None \<Rightarrow> None
           | Some (ds, stop) \<Rightarrow> Some (d # ds, stop)))"

text \<open>
  The order of calls the specification asks for, written out: for each dataset of the
  sequence, in order, the request that yields it, then the containment test, then the
  publication when the test was negative; the next dataset is treated from the store this
  leaves.
\<close>

fun rounds :: "('s, 'h, 'g) DataRegistry \<Rightarrow> 's \<Rightarrow> Dataset list \<Rightarrow> event list" where
  "rounds R s [] = []"
| "rounds R s (d # ds) =
     [Next (Inr (Some d)), Contains d (contains (data R) s d)]
     @ (if contains (data R) s d then [] else [Publish d])
     @ rounds R (after_body R s d) ds"

text \<open>The last request of a call: the iterator is done, or it throws.\<close>

definition last_request :: "error option \<Rightarrow> event" where
  "last_request stop = (case stop of None \<Rightarrow> Next (Inr None) | Some e \<Rightarrow> Next (Inl e))"

text \<open>Reading a log: the datasets published and the datasets yielded, in order.\<close>

definition published :: "event list \<Rightarrow> Dataset list" where
  "published evs = concat (map (\<lambda>ev. case ev of Publish d \<Rightarrow> [d] | _ \<Rightarrow> []) evs)"

definition yielded :: "event list \<Rightarrow> Dataset list" where
  "yielded evs =
     concat (map (\<lambda>ev. case ev of Next (Inr (Some d)) \<Rightarrow> [d] | _ \<Rightarrow> []) evs)"

text \<open>The calls that convert (\<open>convert\<close> and the requests to its iterator).\<close>

definition is_conversion :: "event \<Rightarrow> bool" where
  "is_conversion ev = (case ev of Convert srcs t \<Rightarrow> True | Next r \<Rightarrow> True | _ \<Rightarrow> False)"

subsection \<open>The collaborators, from their contracts\<close>

text \<open>
  Modelled from the spec: the dataset store (\<open>datasets.ts\<close> is not among the sources).
  It holds the published datasets keyed by URL and mime type; it contains a dataset when
  one with the same key was published; publishing a dataset it contains is a no-op; the
  handle is the dataset the registration stands for.
\<close>

definition same_key :: "Dataset \<Rightarrow> Dataset \<Rightarrow> bool" where
  "same_key d d' = (url d' = url d \<and> mimeType d' = mimeType d)"

definition listStore :: "(Dataset list, Dataset) IDatasetRegistry" where
  "listStore =
     \<lparr>contains = (\<lambda>s d. list_ex (same_key d) s),
      publish = (\<lambda>s d. (d, if list_ex (same_key d) s then s else s @ [d])),
      filterByURL = (\<lambda>s u. filter (\<lambda>d. url d = u) s),
      mimeTypesForURL = (\<lambda>s u. fset_of_list (map mimeType (filter (\<lambda>d. url d = u) s)))\<rparr>"

text \<open>
  The law of the store the facade relies on when it tests containment before it
  publishes: what was just published is contained.
\<close>

definition publish_registers :: "('s, 'h) IDatasetRegistry \<Rightarrow> bool" where
  "publish_registers D = (\<forall>s d. contains D (snd (publish D s d)) d)"

text \<open>
  Modelled from the spec: the reachability closure of the converter graph
  (\<open>converters.ts\<close> is not among the sources). A converter maps one or more source mime
  types to a target mime type; the closure of a seed set is the set of all mime types
  obtainable from it by any number of converter applications, none included.
\<close>

record Converter =
  sources :: "mime list"
  target :: mime

definition expand :: "Converter list \<Rightarrow> mime fset \<Rightarrow> mime fset" where
  "expand cs S =
     S |\<union>| fset_of_list (map target (filter (\<lambda>c. list_ex (\<lambda>m. m |\<in>| S) (sources c)) cs))"

function reachable :: "Converter list \<Rightarrow> mime fset \<Rightarrow> mime fset" where
  "reachable cs S = (if expand cs S |\<subseteq>| S then S else reachable cs (expand cs S))"
  by pat_completeness auto
termination
proof (relation "measure (\<lambda>(cs, S). card (set (map target cs) - fset S))")
  show "wf (measure (\<lambda>(cs, S). card (set (map target cs) - fset S)))"
    by simp
next
  fix cs :: "Converter list" and S :: "mime fset"
  assume "\<not> expand cs S |\<subseteq>| S"
  then obtain t where t: "t |\<in>| expand cs S" "t |\<notin>| S"
    by auto
  then have tin: "t \<in> set (map target cs)"
    by (auto simp: expand_def fset_of_list_elem)
  have "set (map target cs) - fset (expand cs S) \<subset> set (map target cs) - fset S"
    using t tin by (auto simp: expand_def fset_of_list_elem)
  then have "card (set (map target cs) - fset (expand cs S))
      < card (set (map target cs) - fset S)"
    by (intro psubset_card_mono) auto
  then show "((cs, expand cs S), (cs, S))
      \<in> measure (\<lambda>(cs, S). card (set (map target cs) - fset S))"
    by simp
qed

declare reachable.simps [simp del]

text \<open>
  Modelled from the spec: a converter registry over a list of converters. Its
  \<open>listTargetMimeTypes\<close> is the closure above (the specification gives the URL no part
  in it). Its \<open>convert\<close> is given by a table \<open>chain\<close>: the datasets the iterator yields
  for the given sources and target, and whether it then is done or throws; the iterator
  state is what is left to yield.
\<close>

fun replay :: "Dataset list \<times> error option \<Rightarrow> 's \<Rightarrow> (Dataset list \<times> error option) IteratorResult" where
  "replay (d # ds, stop) s = Yield d (ds, stop)"
| "replay ([], None) s = Return"
| "replay ([], Some e) s = Throw e"

definition graphConverters ::
  "Converter list \<Rightarrow> (Dataset list \<Rightarrow> mime \<Rightarrow> Dataset list \<times> error option)
     \<Rightarrow> ('s, Dataset list \<times> error option) IConverterRegistry" where
  "graphConverters cs chain =
     \<lparr>listTargetMimeTypes = (\<lambda>u seeds. reachable cs seeds),
      convert = chain,
      iter_next = replay\<rparr>"

text \<open>
  Modelled from the spec: the resolver and the viewer encoding (\<open>resolvers.ts\<close> and
  \<open>viewers.ts\<close> are not among the sources), as in the scenario of the specification:
  a URL resolves to a dataset of mime type \<open>text/csv\<close>; a viewer label is encoded by a
  fixed prefix and decoded by removing it.
\<close>

definition viewerPrefix :: string where
  "viewerPrefix = ''viewer:''"

definition csvImports :: Imports where
  "csvImports =
     \<lparr>resolveDataSet = (\<lambda>u. \<lparr>mimeType = ''text/csv'', url = u, dataset_data = Value ''a,b''\<rparr>),
      resolveMimeType = ''text/csv'',
      createViewerMimeType = (\<lambda>label. viewerPrefix @ label),
      extractViewerLabel = (\<lambda>m. if take (length viewerPrefix) m = viewerPrefix
                                   then Some (drop (length viewerPrefix) m) else None)\<rparr>"

text \<open>The law of the viewer encoding: decoding is the inverse of encoding.\<close>

definition decodes_encoding :: "Imports \<Rightarrow> bool" where
  "decodes_encoding M =
     (\<forall>m label. extractViewerLabel M m = Some label \<longrightarrow> createViewerMimeType M label = m)"

subsection \<open>The scenario of the specification\<close>

text \<open>
  Modelled from the spec: the URL \<open>csv://data/a\<close> with its \<open>text/csv\<close> dataset, a
  converter to \<open>application/json\<close> and one from there to the viewer \<open>Table\<close>. The
  table \<open>exampleChain\<close> gives the chain for each target; for \<open>image/png\<close> the sequence
  ends without reaching the target, for \<open>text/html\<close> and the viewer \<open>Chart\<close> it
  throws, for any other target it is empty.
\<close>

definition csvData :: Dataset where
  "csvData = \<lparr>mimeType = ''text/csv'', url = ''csv://data/a'', dataset_data = Value ''a,b''\<rparr>"

definition jsonData :: Dataset where
  "jsonData =
     \<lparr>mimeType = ''application/json'', url = ''csv://data/a'', dataset_data = Value ''[a,b]''\<rparr>"

definition tableViewer :: Dataset where
  "tableViewer =
     \<lparr>mimeType = ''viewer:Table'', url = ''csv://data/a'', dataset_data = Callable None\<rparr>"

definition exampleConverters :: "Converter list" where
  "exampleConverters =
     [\<lparr>sources = [''text/csv''], target = ''application/json''\<rparr>,
      \<lparr>sources = [''application/json''], target = ''viewer:Table''\<rparr>]"

definition exampleChain :: "Dataset list \<Rightarrow> mime \<Rightarrow> Dataset list \<times> error option" where
  "exampleChain srcs t =
     (if t = ''text/csv'' then ([csvData], None)
      else if t = ''application/json'' then ([csvData, jsonData], None)
      else if t = ''viewer:Table'' then ([csvData, jsonData, tableViewer], None)
      else if t = ''image/png'' then ([csvData], None)
      else if t = ''text/html'' \<or> t = ''viewer:Chart''
        then ([csvData], Some (Thrown ''no converter''))
      else ([], None))"

definition exampleRegistry ::
  "(Dataset list, Dataset, Dataset list \<times> error option) DataRegistry" where
  "exampleRegistry =
     \<lparr>converters = graphConverters exampleConverters exampleChain, data = listStore\<rparr>"

subsection \<open>The seed of \<open>hasConversions\<close> as the specification words it\<close>



section \<open>Properties\<close>

lemma in_expand:
  "t |\<in>| expand cs S \<longleftrightarrow>
     t |\<in>| S \<or> (\<exists>c \<in> set cs. t = target c \<and> (\<exists>m \<in> set (sources c). m |\<in>| S))"
  unfolding expand_def by (auto simp: fset_of_list_elem list_ex_iff)

lemma expand_mono: "S |\<subseteq>| T \<Longrightarrow> expand cs S |\<subseteq>| expand cs T"
  by (rule fsubsetI) (auto simp: in_expand)

lemma expand_empty: "expand cs {||} = {||}"
  by (rule fset_eqI) (simp add: in_expand)

lemma reachable_empty: "reachable cs {||} = {||}"
  by (subst reachable.simps) (simp add: expand_empty)

lemma seeds_reachable: "S |\<subseteq>| reachable cs S"
proof (induction cs S rule: reachable.induct)
  case (1 cs S)
  show ?case
  proof (cases "expand cs S |\<subseteq>| S")
    case True
    then show ?thesis by (simp add: reachable.simps)
  next
    case False
    have "S |\<subseteq>| expand cs S" by (simp add: expand_def)
    also have "\<dots> |\<subseteq>| reachable cs (expand cs S)" using False by (rule "1.IH")
    finally show ?thesis using False by (simp add: reachable.simps)
  qed
qed

lemma reachable_closed: "expand cs (reachable cs S) |\<subseteq>| reachable cs S"
proof (induction cs S rule: reachable.induct)
  case (1 cs S)
  show ?case
  proof (cases "expand cs S |\<subseteq>| S")
    case True
    then show ?thesis by (simp add: reachable.simps)
  next
    case False
    then show ?thesis using "1.IH" by (simp add: reachable.simps)
  qed
qed

lemma reachable_least:
  "S |\<subseteq>| T \<Longrightarrow> expand cs T |\<subseteq>| T \<Longrightarrow> reachable cs S |\<subseteq>| T"
proof (induction cs S rule: reachable.induct)
  case (1 cs S)
  show ?case
  proof (cases "expand cs S |\<subseteq>| S")
    case True
    then show ?thesis using "1.prems" by (simp add: reachable.simps)
  next
    case False
    have "expand cs S |\<subseteq>| T"
      using expand_mono [OF "1.prems"(1)] "1.prems"(2) by auto
    then have "reachable cs (expand cs S) |\<subseteq>| T"
      using False "1.prems"(2) by (intro "1.IH")
    then show ?thesis using False by (simp add: reachable.simps)
  qed
qed



text \<open>
  Claim C4. \<open>registerURL\<close> resolves the URL once. When the store contains the resolved
  dataset it returns \<open>null\<close> and publishes nothing; otherwise it publishes that dataset
  and returns the handle of the store. It makes no call that converts. With a store that
  contains what was just published, a second call returns \<open>null\<close>, leaves the store as
  the first call left it, and the two calls together publish the dataset once when the
  first call returned a handle.
\<close>

theorem registerURL_once:
  "registerURL M R u \<sigma> =
     (if contains (data R) (store \<sigma>) (resolveDataSet M u)
      then (None, \<sigma>\<lparr>log := log \<sigma> @ [ResolveDataSet u, Contains (resolveDataSet M u) True]\<rparr>)
      else (Some (fst (publish (data R) (store \<sigma>) (resolveDataSet M u))),
            \<sigma>\<lparr>store := snd (publish (data R) (store \<sigma>) (resolveDataSet M u)),
              log := log \<sigma> @ [ResolveDataSet u, Contains (resolveDataSet M u) False,
                              Publish (resolveDataSet M u)]\<rparr>))
   \<and> filter is_conversion (log (snd (registerURL M R u \<sigma>))) = filter is_conversion (log \<sigma>)
   \<and> (publish_registers (data R) \<longrightarrow>
        fst (registerURL M R u (snd (registerURL M R u \<sigma>))) = None
        \<and> store (snd (registerURL M R u (snd (registerURL M R u \<sigma>))))
            = store (snd (registerURL M R u \<sigma>))
        \<and> published (log (snd (registerURL M R u (snd (registerURL M R u \<sigma>)))))
            = published (log \<sigma>)
              @ (if fst (registerURL M R u \<sigma>) = None then [] else [resolveDataSet M u]))"
proof -
  let ?d = "resolveDataSet M u"
  have eq: "registerURL M R u \<sigma> =
     (if contains (data R) (store \<sigma>) ?d
      then (None, \<sigma>\<lparr>log := log \<sigma> @ [ResolveDataSet u, Contains ?d True]\<rparr>)
      else (Some (fst (publish (data R) (store \<sigma>) ?d)),
            \<sigma>\<lparr>store := snd (publish (data R) (store \<sigma>) ?d),
              log := log \<sigma> @ [ResolveDataSet u, Contains ?d False, Publish ?d]\<rparr>))" for \<sigma>
    by (simp add: registerURL_def emit_def Let_def split: prod.splits)
  have conv: "filter is_conversion (log (snd (registerURL M R u \<sigma>))) = filter is_conversion (log \<sigma>)"
    by (simp add: eq is_conversion_def)
  have twice: "fst (registerURL M R u (snd (registerURL M R u \<sigma>))) = None
        \<and> store (snd (registerURL M R u (snd (registerURL M R u \<sigma>))))
            = store (snd (registerURL M R u \<sigma>))
        \<and> published (log (snd (registerURL M R u (snd (registerURL M R u \<sigma>)))))
            = published (log \<sigma>)
              @ (if fst (registerURL M R u \<sigma>) = None then [] else [?d])"
    if law: "publish_registers (data R)"
  proof (cases "contains (data R) (store \<sigma>) ?d")
    case True
    then show ?thesis
      by (simp add: eq published_def)
  next
    case False
    have "contains (data R) (snd (publish (data R) (store \<sigma>) ?d)) ?d"
      using law by (simp add: publish_registers_def)
    with False show ?thesis
      by (simp add: eq published_def)
  qed
  show ?thesis
    using eq conv twice by blast
qed

lemma listStore_registers: "publish_registers listStore"
  by (simp add: publish_registers_def listStore_def same_key_def)

theorem registerURL_once_witness:
  "publish_registers (data exampleRegistry)
   \<and> registerURL csvImports exampleRegistry ''csv://data/a'' \<lparr>store = [], log = []\<rparr>
       = (Some csvData,
          \<lparr>store = [csvData],
           log = [ResolveDataSet ''csv://data/a'', Contains csvData False, Publish csvData]\<rparr>)
   \<and> fst (registerURL csvImports exampleRegistry ''csv://data/a''
         (snd (registerURL csvImports exampleRegistry ''csv://data/a'' \<lparr>store = [], log = []\<rparr>)))
       = None
   \<and> published (log (snd (registerURL csvImports exampleRegistry ''csv://data/a''
         (snd (registerURL csvImports exampleRegistry ''csv://data/a'' \<lparr>store = [], log = []\<rparr>)))))
       = [csvData]"
proof -
  have law: "publish_registers (data exampleRegistry)"
    by (simp add: exampleRegistry_def listStore_registers)
  have d: "resolveDataSet csvImports ''csv://data/a'' = csvData"
    by (simp add: csvImports_def csvData_def)
  have first: "registerURL csvImports exampleRegistry ''csv://data/a'' \<lparr>store = [], log = []\<rparr>
       = (Some csvData,
          \<lparr>store = [csvData],
           log = [ResolveDataSet ''csv://data/a'', Contains csvData False, Publish csvData]\<rparr>)"
    by (simp add: registerURL_def d emit_def exampleRegistry_def listStore_def)
  note T = registerURL_once [where M = csvImports and R = exampleRegistry
      and u = "''csv://data/a''" and \<sigma> = "\<lparr>store = [], log = []\<rparr>"]
  from T law have second:
    "fst (registerURL csvImports exampleRegistry ''csv://data/a''
         (snd (registerURL csvImports exampleRegistry ''csv://data/a'' \<lparr>store = [], log = []\<rparr>)))
       = None"
    by blast
  from T law have pub:
    "published (log (snd (registerURL csvImports exampleRegistry ''csv://data/a''
         (snd (registerURL csvImports exampleRegistry ''csv://data/a'' \<lparr>store = [], log = []\<rparr>)))))
       = published (log \<lparr>store = [] :: Dataset list, log = []\<rparr>)
         @ (if fst (registerURL csvImports exampleRegistry ''csv://data/a''
                 \<lparr>store = [], log = []\<rparr>) = None
            then [] else [resolveDataSet csvImports ''csv://data/a''])"
    by blast
  have "published (log (snd (registerURL csvImports exampleRegistry ''csv://data/a''
         (snd (registerURL csvImports exampleRegistry ''csv://data/a'' \<lparr>store = [], log = []\<rparr>)))))
       = [csvData]"
    unfolding pub by (simp add: first d published_def)
  with law first second show ?thesis
    by blast
qed

lemma listStore_unknown: "filterByURL listStore s u = [] \<Longrightarrow> mimeTypesForURL listStore s u = {||}"
  by (simp add: listStore_def del: fset_of_list_map fset_of_list_filter)

text \<open>
  Claim C6, as amended. \<open>hasConversions\<close> and \<open>possibleMimeTypesForURL\<close> return a value
  and leave the store as it was; the only calls they make are \<open>listTargetMimeTypes\<close>
  and, for the second, \<open>mimeTypesForURL\<close>. For a URL with no dataset in the store,
  \<open>possibleMimeTypesForURL\<close> over the converter graph of the specification is empty.
  What \<open>hasConversions\<close> answers is the same for every store, so it is no different for
  a URL that was never registered.
\<close>

theorem queries_are_pure:
  "hasConversions M R u \<sigma>
     = (1 < fcard (listTargetMimeTypes (converters R) u {|resolveMimeType M|}),
        \<sigma>\<lparr>log := log \<sigma> @ [ListTargetMimeTypes u {|resolveMimeType M|}]\<rparr>)
   \<and> possibleMimeTypesForURL R u \<sigma>
     = (listTargetMimeTypes (converters R) u (mimeTypesForURL (data R) (store \<sigma>) u),
        \<sigma>\<lparr>log := log \<sigma> @ [MimeTypesForURL u,
                ListTargetMimeTypes u (mimeTypesForURL (data R) (store \<sigma>) u)]\<rparr>)
   \<and> (filterByURL listStore s u = [] \<longrightarrow>
        fst (possibleMimeTypesForURL
               \<lparr>converters = graphConverters cs chain, data = listStore\<rparr> u
               \<lparr>store = s, log = l\<rparr>) = {||})
   \<and> fst (hasConversions M R u \<sigma>) = fst (hasConversions M R u \<sigma>0)"
proof (intro conjI impI)
  show "fst (hasConversions M R u \<sigma>) = fst (hasConversions M R u \<sigma>0)"
    by (simp add: hasConversions_def Let_def)
  show "hasConversions M R u \<sigma>
     = (1 < fcard (listTargetMimeTypes (converters R) u {|resolveMimeType M|}),
        \<sigma>\<lparr>log := log \<sigma> @ [ListTargetMimeTypes u {|resolveMimeType M|}]\<rparr>)"
    by (simp add: hasConversions_def emit_def Let_def)
  show "possibleMimeTypesForURL R u \<sigma>
     = (listTargetMimeTypes (converters R) u (mimeTypesForURL (data R) (store \<sigma>) u),
        \<sigma>\<lparr>log := log \<sigma> @ [MimeTypesForURL u,
                ListTargetMimeTypes u (mimeTypesForURL (data R) (store \<sigma>) u)]\<rparr>)"
    by (simp add: possibleMimeTypesForURL_def emit_def Let_def)
  assume "filterByURL listStore s u = []"
  then have "mimeTypesForURL listStore s u = {||}"
    by (rule listStore_unknown)
  then show "fst (possibleMimeTypesForURL
               \<lparr>converters = graphConverters cs chain, data = listStore\<rparr> u
               \<lparr>store = s, log = l\<rparr>) = {||}"
    by (simp add: possibleMimeTypesForURL_def Let_def graphConverters_def reachable_empty)
qed

theorem queries_are_pure_witness:
  "filterByURL listStore [] ''csv://data/a'' = []
   \<and> fst (possibleMimeTypesForURL exampleRegistry ''csv://data/a'' \<lparr>store = [], log = []\<rparr>) = {||}"
proof -
  have unknown: "filterByURL listStore [] ''csv://data/a'' = []"
    by (simp add: listStore_def)
  with queries_are_pure [where M = csvImports and R = exampleRegistry
      and \<sigma> = "\<lparr>store = [], log = []\<rparr>" and s = "[]" and u = "''csv://data/a''"
      and cs = exampleConverters and chain = exampleChain and l = "[]"
      and \<sigma>0 = "\<lparr>store = [csvData], log = []\<rparr>"]
  show ?thesis
    unfolding exampleRegistry_def by blast
qed

lemma csv_has_conversions: "1 < fcard (reachable exampleConverters {|''text/csv''|})"
  by (simp add: reachable.simps expand_def exampleConverters_def fcard_finsert_if)



text \<open>
  Claim C6 as stated asks for an empty or trivial result on a URL that was never
  registered. With nothing in the store and a converter from \<open>text/csv\<close>,
  \<open>hasConversions\<close> is true.
\<close>

theorem hasConversions_unregistered_counterexample:
  "filterByURL (data exampleRegistry) [] ''csv://data/a'' = []
   \<and> fst (hasConversions csvImports exampleRegistry ''csv://data/a'' \<lparr>store = [], log = []\<rparr>)"
  using csv_has_conversions
  by (simp add: hasConversions_def exampleRegistry_def listStore_def csvImports_def
      graphConverters_def)

text \<open>
  Claim C7. \<open>possibleMimeTypesForURL\<close> is \<open>listTargetMimeTypes\<close> applied to the mime
  types the store has for the URL; over the converter graph of the specification, every
  one of these mime types is in the result.
\<close>

theorem possibleMimeTypes_superset:
  "fst (possibleMimeTypesForURL R u \<sigma>)
     = listTargetMimeTypes (converters R) u (mimeTypesForURL (data R) (store \<sigma>) u)
   \<and> mimeTypesForURL D (store \<sigma>') u
       |\<subseteq>| fst (possibleMimeTypesForURL \<lparr>converters = graphConverters cs chain, data = D\<rparr> u \<sigma>')"
  by (simp add: possibleMimeTypesForURL_def Let_def graphConverters_def seeds_reachable)

theorem possibleMimeTypes_superset_witness:
  "mimeTypesForURL listStore (store \<lparr>store = [csvData], log = []\<rparr>) ''csv://data/a''
     = {|''text/csv''|}
   \<and> ''text/csv''
       |\<in>| fst (possibleMimeTypesForURL exampleRegistry ''csv://data/a''
                  \<lparr>store = [csvData], log = []\<rparr>)"
proof -
  have seeds: "mimeTypesForURL listStore (store \<lparr>store = [csvData], log = []\<rparr>) ''csv://data/a''
     = {|''text/csv''|}"
    by (simp add: listStore_def csvData_def del: fset_of_list_map fset_of_list_filter)
  from possibleMimeTypes_superset [where D = listStore and cs = exampleConverters
      and chain = exampleChain and u = "''csv://data/a''"
      and \<sigma>' = "\<lparr>store = [csvData], log = []\<rparr>"]
  have "mimeTypesForURL listStore (store \<lparr>store = [csvData], log = []\<rparr>) ''csv://data/a''
      |\<subseteq>| fst (possibleMimeTypesForURL exampleRegistry ''csv://data/a''
                  \<lparr>store = [csvData], log = []\<rparr>)"
    unfolding exampleRegistry_def by blast
  with seeds show ?thesis
    by auto
qed

text \<open>
  Claim C8. A label is in \<open>viewersForURL\<close> exactly when \<open>extractViewerLabel\<close> decodes
  it from one of the possible mime types; no \<open>null\<close> is in the result. The state is the
  one \<open>possibleMimeTypesForURL\<close> leaves, with the store unchanged. When decoding is the
  inverse of encoding, the encoding of every label in the result is a possible mime type.
\<close>

theorem viewersForURL_labels:
  "(l |\<in>| fst (viewersForURL M R u \<sigma>))
     = (\<exists>m. m |\<in>| fst (possibleMimeTypesForURL R u \<sigma>) \<and> extractViewerLabel M m = Some l)
   \<and> snd (viewersForURL M R u \<sigma>) = snd (possibleMimeTypesForURL R u \<sigma>)
   \<and> store (snd (viewersForURL M R u \<sigma>)) = store \<sigma>
   \<and> (decodes_encoding M \<longrightarrow> l |\<in>| fst (viewersForURL M R u \<sigma>) \<longrightarrow>
        createViewerMimeType M l |\<in>| fst (possibleMimeTypesForURL R u \<sigma>))"
proof -
  obtain P \<sigma>1 where p: "possibleMimeTypesForURL R u \<sigma> = (P, \<sigma>1)"
    by (cases "possibleMimeTypesForURL R u \<sigma>")
  have st: "store \<sigma>1 = store \<sigma>"
    using p by (auto simp: possibleMimeTypesForURL_def Let_def emit_def)
  have v: "viewersForURL M R u \<sigma>
      = (the |`| ffilter (\<lambda>label. label \<noteq> None) (extractViewerLabel M |`| P), \<sigma>1)"
    by (simp add: viewersForURL_def p)
  have mem: "(l |\<in>| fst (viewersForURL M R u \<sigma>))
      = (\<exists>m. m |\<in>| P \<and> extractViewerLabel M m = Some l)"
    unfolding v by force
  have enc: "createViewerMimeType M l |\<in>| P"
    if "decodes_encoding M" "l |\<in>| fst (viewersForURL M R u \<sigma>)"
    using that mem by (auto simp: decodes_encoding_def)
  show ?thesis
    using mem enc st by (simp add: v p)
qed

lemma forAwait_produce:
  "produce n R g (store \<sigma>) = Some (ds, stop) \<Longrightarrow>
   forAwait R g fin \<sigma> =
     Some (case stop of Some e \<Rightarrow> Inl e
             | None \<Rightarrow> Inr (if ds = [] then fin else Some (last ds)),
           \<sigma>\<lparr>store := fold (\<lambda>d s. after_body R s d) ds (store \<sigma>),
             log := log \<sigma> @ rounds R (store \<sigma>) ds @ [last_request stop]\<rparr>)"
proof (induction n arbitrary: g \<sigma> fin ds)
  case 0
  then show ?case by simp
next
  case (Suc n)
  show ?case
  proof (cases "iter_next (converters R) g (store \<sigma>)")
    case Return
    with Suc.prems show ?thesis
      by (subst forAwait.simps) (auto simp: emit_def last_request_def)
  next
    case (Throw e)
    with Suc.prems show ?thesis
      by (subst forAwait.simps) (auto simp: emit_def last_request_def)
  next
    case (Yield d g')
    with Suc.prems obtain ds' where
      p: "produce n R g' (after_body R (store \<sigma>) d) = Some (ds', stop)" and ds: "ds = d # ds'"
      by (auto split: option.splits)
    show ?thesis
    proof (cases "contains (data R) (store \<sigma>) d")
      case True
      let ?\<sigma>' = "emit (Contains d True) (emit (Next (Inr (Some d))) \<sigma>)"
      have st: "store ?\<sigma>' = after_body R (store \<sigma>) d"
        using True by (simp add: emit_def after_body_def)
      have "forAwait R g fin \<sigma> = forAwait R g' (Some d) ?\<sigma>'"
        using Yield True by (subst forAwait.simps) (simp add: emit_def)
      also have "\<dots> = Some (case stop of Some e \<Rightarrow> Inl e
             | None \<Rightarrow> Inr (if ds' = [] then Some d else Some (last ds')),
           ?\<sigma>'\<lparr>store := fold (\<lambda>d s. after_body R s d) ds' (store ?\<sigma>'),
             log := log ?\<sigma>' @ rounds R (store ?\<sigma>') ds' @ [last_request stop]\<rparr>)"
        using p st by (intro Suc.IH) simp
      finally show ?thesis
        using True st ds by (simp add: emit_def split: option.splits)
    next
      case False
      obtain h s' where pub: "publish (data R) (store \<sigma>) d = (h, s')"
        by (cases "publish (data R) (store \<sigma>) d")
      let ?\<sigma>' = "emit (Publish d)
        ((emit (Contains d False) (emit (Next (Inr (Some d))) \<sigma>))\<lparr>store := s'\<rparr>)"
      have st: "store ?\<sigma>' = after_body R (store \<sigma>) d"
        using False pub by (simp add: emit_def after_body_def)
      have "forAwait R g fin \<sigma> = forAwait R g' (Some d) ?\<sigma>'"
        using Yield False pub by (subst forAwait.simps) (simp add: emit_def)
      also have "\<dots> = Some (case stop of Some e \<Rightarrow> Inl e
             | None \<Rightarrow> Inr (if ds' = [] then Some d else Some (last ds')),
           ?\<sigma>'\<lparr>store := fold (\<lambda>d s. after_body R s d) ds' (store ?\<sigma>'),
             log := log ?\<sigma>' @ rounds R (store ?\<sigma>') ds' @ [last_request stop]\<rparr>)"
        using p st by (intro Suc.IH) simp
      finally show ?thesis
        using False st ds by (simp add: emit_def split: option.splits)
    qed
  qed
qed

lemma convertByURL_produce:
  "produce n R (convert (converters R) (filterByURL (data R) (store \<sigma>) u) t) (store \<sigma>)
     = Some (ds, stop) \<Longrightarrow>
   convertByURL R u t \<sigma> =
     Some (case stop of Some e \<Rightarrow> Inl e
             | None \<Rightarrow> Inr (if ds = [] then None else Some (last ds)),
           \<sigma>\<lparr>store := fold (\<lambda>d s. after_body R s d) ds (store \<sigma>),
             log := log \<sigma> @ [FilterByURL u, Convert (filterByURL (data R) (store \<sigma>) u) t]
                    @ rounds R (store \<sigma>) ds @ [last_request stop]\<rparr>)"
proof -
  assume p: "produce n R (convert (converters R) (filterByURL (data R) (store \<sigma>) u) t) (store \<sigma>)
     = Some (ds, stop)"
  let ?srcs = "filterByURL (data R) (store \<sigma>) u"
  let ?\<sigma>2 = "emit (Convert ?srcs t) (emit (FilterByURL u) \<sigma>)"
  have st: "store ?\<sigma>2 = store \<sigma>"
    by (simp add: emit_def)
  have "convertByURL R u t \<sigma> = forAwait R (convert (converters R) ?srcs t) None ?\<sigma>2"
    by (simp add: convertByURL_def Let_def)
  also have "\<dots> = Some (case stop of Some e \<Rightarrow> Inl e
             | None \<Rightarrow> Inr (if ds = [] then None else Some (last ds)),
           ?\<sigma>2\<lparr>store := fold (\<lambda>d s. after_body R s d) ds (store ?\<sigma>2),
             log := log ?\<sigma>2 @ rounds R (store ?\<sigma>2) ds @ [last_request stop]\<rparr>)"
    using p st by (intro forAwait_produce) simp
  finally show ?thesis
    by (simp add: emit_def)
qed

lemma yielded_rounds: "yielded (rounds R s ds) = ds"
  by (induction ds arbitrary: s) (simp_all add: yielded_def)

lemma published_rounds: "subseq (published (rounds R s ds)) ds"
proof (induction ds arbitrary: s)
  case Nil
  show ?case by (simp add: published_def)
next
  case (Cons d ds)
  have tl: "subseq (published (rounds R (after_body R s d) ds)) ds"
    by (rule Cons.IH)
  show ?case
  proof (cases "contains (data R) s d")
    case True
    then have "published (rounds R s (d # ds)) = published (rounds R (after_body R s d) ds)"
      by (simp add: published_def)
    with tl show ?thesis by (simp add: list_emb_Cons)
  next
    case False
    then have "published (rounds R s (d # ds)) = d # published (rounds R (after_body R s d) ds)"
      by (simp add: published_def)
    with tl show ?thesis by simp
  qed
qed

text \<open>
  A call that returns has consumed a sequence that ended, so the condition on \<open>produce\<close>
  in the statements below is the condition that the call returns.
\<close>

lemma forAwait_returns:
  assumes ret: "forAwait R g fin \<sigma> = Some y"
  shows "\<exists>n ds stop. produce n R g (store \<sigma>) = Some (ds, stop)"
proof (rule forAwait.raw_induct
    [where P = "\<lambda>R g fin \<sigma> y. \<exists>n ds stop. produce n R g (store \<sigma>) = Some (ds, stop)",
     OF _ ret])
  fix f :: "('a, 'b, 'c) DataRegistry \<Rightarrow> 'c \<Rightarrow> Dataset option \<Rightarrow> 'a state
      \<Rightarrow> ((error + Dataset option) \<times> 'a state) option"
    and R g fin \<sigma> y
  assume IH: "\<And>R g fin \<sigma> y. f R g fin \<sigma> = Some y
      \<Longrightarrow> \<exists>n ds stop. produce n R g (store \<sigma>) = Some (ds, stop)"
  assume body: "(case iter_next (converters R) g (store \<sigma>) of
        Return \<Rightarrow> Some (Inr fin, emit (Next (Inr None)) \<sigma>)
      | Throw e \<Rightarrow> Some (Inl e, emit (Next (Inl e)) \<sigma>)
      | Yield dataset g' \<Rightarrow>
          (let \<sigma>1 = emit (Next (Inr (Some dataset))) \<sigma>
           in if \<not> contains (data R) (store \<sigma>1) dataset
              then (let \<sigma>2 = emit (Contains dataset False) \<sigma>1;
                        (h, s') = publish (data R) (store \<sigma>2) dataset
                    in f R g' (Some dataset) (emit (Publish dataset) (\<sigma>2\<lparr>store := s'\<rparr>)))
              else f R g' (Some dataset) (emit (Contains dataset True) \<sigma>1))) = Some y"
  show "\<exists>n ds stop. produce n R g (store \<sigma>) = Some (ds, stop)"
  proof (cases "iter_next (converters R) g (store \<sigma>)")
    case Return
    then have "produce (Suc 0) R g (store \<sigma>) = Some ([], None)" by simp
    then show ?thesis by blast
  next
    case (Throw e)
    then have "produce (Suc 0) R g (store \<sigma>) = Some ([], Some e)" by simp
    then show ?thesis by blast
  next
    case (Yield d g')
    obtain h s' where pub: "publish (data R) (store \<sigma>) d = (h, s')"
      by (cases "publish (data R) (store \<sigma>) d")
    from body Yield pub obtain \<sigma>1 where
      rec: "f R g' (Some d) \<sigma>1 = Some y" and st: "store \<sigma>1 = after_body R (store \<sigma>) d"
      by (auto simp: emit_def after_body_def Let_def split: if_splits)
    from IH [OF rec] st obtain n ds stop where
      "produce n R g' (after_body R (store \<sigma>) d) = Some (ds, stop)"
      by auto
    with Yield have "produce (Suc n) R g (store \<sigma>) = Some (d # ds, stop)"
      by simp
    then show ?thesis by blast
  qed
qed

lemma convertByURL_ends:
  "convertByURL R u t \<sigma> = Some y \<Longrightarrow>
   \<exists>n ds stop. produce n R (convert (converters R) (filterByURL (data R) (store \<sigma>) u) t)
     (store \<sigma>) = Some (ds, stop)"
proof -
  assume "convertByURL R u t \<sigma> = Some y"
  then have "forAwait R (convert (converters R) (filterByURL (data R) (store \<sigma>) u) t) None
      (emit (Convert (filterByURL (data R) (store \<sigma>) u) t) (emit (FilterByURL u) \<sigma>)) = Some y"
    by (simp add: convertByURL_def Let_def)
  from forAwait_returns [OF this] show ?thesis
    by (simp add: emit_def)
qed

text \<open>
  Claim C10. When the first request to the iterator finds it done, \<open>convertByURL\<close>
  completes with \<open>undefined\<close>: no dataset and no error, and nothing is published.
\<close>

theorem convertByURL_no_element:
  "iter_next (converters R) (convert (converters R) (filterByURL (data R) (store \<sigma>) u) t)
      (store \<sigma>) = Return \<Longrightarrow>
   convertByURL R u t \<sigma> =
     Some (Inr None,
           \<sigma>\<lparr>log := log \<sigma> @ [FilterByURL u, Convert (filterByURL (data R) (store \<sigma>) u) t,
                              Next (Inr None)]\<rparr>)"
proof -
  assume "iter_next (converters R) (convert (converters R) (filterByURL (data R) (store \<sigma>) u) t)
      (store \<sigma>) = Return"
  then have "produce (Suc 0) R (convert (converters R) (filterByURL (data R) (store \<sigma>) u) t)
      (store \<sigma>) = Some ([], None)"
    by simp
  from convertByURL_produce [OF this] show ?thesis
    by (simp add: last_request_def)
qed

text \<open>
  Claim C5. When the sequence ends normally and has at least one dataset, \<open>convertByURL\<close>
  returns the last one. When the sequence is a single dataset that the store contains,
  that dataset is returned, after one containment test and no publication.
\<close>

theorem convertByURL_returns_last:
  "produce n R (convert (converters R) (filterByURL (data R) (store \<sigma>) u) t) (store \<sigma>)
     = Some (ds, None) \<Longrightarrow> ds \<noteq> [] \<Longrightarrow>
   (\<exists>\<sigma>'. convertByURL R u t \<sigma> = Some (Inr (Some (last ds)), \<sigma>'))
   \<and> (\<forall>d. ds = [d] \<longrightarrow> contains (data R) (store \<sigma>) d \<longrightarrow>
         convertByURL R u t \<sigma> =
           Some (Inr (Some d),
                 \<sigma>\<lparr>log := log \<sigma> @ [FilterByURL u,
                          Convert (filterByURL (data R) (store \<sigma>) u) t,
                          Next (Inr (Some d)), Contains d True, Next (Inr None)]\<rparr>))"
proof -
  assume p: "produce n R (convert (converters R) (filterByURL (data R) (store \<sigma>) u) t) (store \<sigma>)
     = Some (ds, None)" and ne: "ds \<noteq> []"
  note run = convertByURL_produce [OF p]
  have a: "\<exists>\<sigma>'. convertByURL R u t \<sigma> = Some (Inr (Some (last ds)), \<sigma>')"
    using run ne by simp
  have b: "convertByURL R u t \<sigma> =
           Some (Inr (Some d),
                 \<sigma>\<lparr>log := log \<sigma> @ [FilterByURL u,
                          Convert (filterByURL (data R) (store \<sigma>) u) t,
                          Next (Inr (Some d)), Contains d True, Next (Inr None)]\<rparr>)"
    if "ds = [d]" "contains (data R) (store \<sigma>) d" for d
    using run that by (simp add: after_body_def last_request_def)
  show ?thesis
    using a b by blast
qed

text \<open>
  Claim C3. When the sequence ends, the calls of \<open>convertByURL\<close> after \<open>filterByURL\<close>
  and \<open>convert\<close> are, for each dataset in the order it is yielded, the request, the
  containment test and the publication when the test was negative, before the next
  request is made; the last call is the request that ends the sequence. The store at the
  end is the one reached by treating the datasets in that order, and what was published
  is a subsequence of what was yielded.
\<close>

theorem convertByURL_publishes_in_order:
  "produce n R (convert (converters R) (filterByURL (data R) (store \<sigma>) u) t) (store \<sigma>)
     = Some (ds, stop) \<Longrightarrow>
   \<exists>r \<sigma>'. convertByURL R u t \<sigma> = Some (r, \<sigma>')
     \<and> log \<sigma>' = log \<sigma> @ [FilterByURL u, Convert (filterByURL (data R) (store \<sigma>) u) t]
                  @ rounds R (store \<sigma>) ds @ [last_request stop]
     \<and> store \<sigma>' = fold (\<lambda>d s. after_body R s d) ds (store \<sigma>)
     \<and> yielded (rounds R (store \<sigma>) ds) = ds
     \<and> subseq (published (rounds R (store \<sigma>) ds)) ds"
proof -
  assume p: "produce n R (convert (converters R) (filterByURL (data R) (store \<sigma>) u) t) (store \<sigma>)
     = Some (ds, stop)"
  show ?thesis
    using convertByURL_produce [OF p] by (simp add: yielded_rounds published_rounds)
qed


text \<open>
  Claim C9. \<open>viewURL\<close> calls \<open>convertByURL\<close> with the encoding of the label. When
  that returns a dataset whose payload is a function, \<open>viewURL\<close> calls the payload from
  the state the conversion leaves, with all its publications, as the last call, and
  completes as the promise of the payload does.
\<close>

theorem viewURL_steps:
  "convertByURL R u (createViewerMimeType M l) \<sigma> = Some (Inr (Some v), \<sigma>') \<Longrightarrow>
   dataset_data v = Callable r \<Longrightarrow>
   viewURL M R u l \<sigma>
     = Some (case r of None \<Rightarrow> Inr () | Some e \<Rightarrow> Inl e, \<sigma>'\<lparr>log := log \<sigma>' @ [DataCall v]\<rparr>)"
  by (auto simp: viewURL_def emit_def split: option.splits)

lemmas example_defs =
  exampleRegistry_def graphConverters_def exampleChain_def listStore_def csvData_def
  jsonData_def tableViewer_def same_key_def after_body_def csvImports_def viewerPrefix_def

theorem convertByURL_no_element_witness:
  "iter_next (converters exampleRegistry)
     (convert (converters exampleRegistry)
        (filterByURL (data exampleRegistry) (store \<lparr>store = [csvData], log = []\<rparr>) ''csv://data/a'')
        ''text/plain'')
     (store \<lparr>store = [csvData], log = []\<rparr>) = Return
   \<and> convertByURL exampleRegistry ''csv://data/a'' ''text/plain'' \<lparr>store = [csvData], log = []\<rparr>
       = Some (Inr None,
               \<lparr>store = [csvData],
                log = [FilterByURL ''csv://data/a'', Convert [csvData] ''text/plain'',
                       Next (Inr None)]\<rparr>)"
proof -
  have h: "iter_next (converters exampleRegistry)
     (convert (converters exampleRegistry)
        (filterByURL (data exampleRegistry) (store \<lparr>store = [csvData], log = []\<rparr>) ''csv://data/a'')
        ''text/plain'')
     (store \<lparr>store = [csvData], log = []\<rparr>) = Return"
    by (simp add: example_defs)
  have srcs: "filterByURL (data exampleRegistry) [csvData] ''csv://data/a'' = [csvData]"
    by (simp add: example_defs)
  from convertByURL_no_element [OF h] h srcs show ?thesis
    by simp
qed

theorem convertByURL_publishes_in_order_witness:
  "produce 3 exampleRegistry
     (convert (converters exampleRegistry)
        (filterByURL (data exampleRegistry) (store \<lparr>store = [csvData], log = []\<rparr>) ''csv://data/a'')
        ''application/json'')
     (store \<lparr>store = [csvData], log = []\<rparr>) = Some ([csvData, jsonData], None)
   \<and> (\<exists>r \<sigma>'. convertByURL exampleRegistry ''csv://data/a'' ''application/json''
                 \<lparr>store = [csvData], log = []\<rparr> = Some (r, \<sigma>')
        \<and> log \<sigma>' = [FilterByURL ''csv://data/a'', Convert [csvData] ''application/json'',
                      Next (Inr (Some csvData)), Contains csvData True,
                      Next (Inr (Some jsonData)), Contains jsonData False, Publish jsonData,
                      Next (Inr None)]
        \<and> store \<sigma>' = [csvData, jsonData])"
proof -
  have p: "produce 3 exampleRegistry
     (convert (converters exampleRegistry)
        (filterByURL (data exampleRegistry) (store \<lparr>store = [csvData], log = []\<rparr>) ''csv://data/a'')
        ''application/json'')
     (store \<lparr>store = [csvData], log = []\<rparr>) = Some ([csvData, jsonData], None)"
    by (simp add: example_defs numeral_3_eq_3)
  have srcs: "filterByURL (data exampleRegistry) [csvData] ''csv://data/a'' = [csvData]"
    by (simp add: example_defs)
  have r: "rounds exampleRegistry [csvData] [csvData, jsonData]
      = [Next (Inr (Some csvData)), Contains csvData True,
         Next (Inr (Some jsonData)), Contains jsonData False, Publish jsonData]"
    by (simp add: example_defs)
  have f: "fold (\<lambda>d s. after_body exampleRegistry s d) [csvData, jsonData] [csvData]
      = [csvData, jsonData]"
    by (simp add: example_defs)
  from convertByURL_publishes_in_order [OF p] obtain r \<sigma>' where
    run: "convertByURL exampleRegistry ''csv://data/a'' ''application/json''
            \<lparr>store = [csvData], log = []\<rparr> = Some (r, \<sigma>')"
    and l: "log \<sigma>' = log \<lparr>store = [csvData], log = []\<rparr>
        @ [FilterByURL ''csv://data/a'',
           Convert (filterByURL (data exampleRegistry) (store \<lparr>store = [csvData], log = []\<rparr>)
              ''csv://data/a'') ''application/json'']
        @ rounds exampleRegistry (store \<lparr>store = [csvData], log = []\<rparr>) [csvData, jsonData]
        @ [last_request None]"
    and s: "store \<sigma>' = fold (\<lambda>d s. after_body exampleRegistry s d) [csvData, jsonData]
        (store \<lparr>store = [csvData], log = []\<rparr>)"
    by blast
  have "store \<sigma>' = [csvData, jsonData]"
    using s f by (simp only: state.simps)
  moreover have "log \<sigma>' = [FilterByURL ''csv://data/a'', Convert [csvData] ''application/json'',
                      Next (Inr (Some csvData)), Contains csvData True,
                      Next (Inr (Some jsonData)), Contains jsonData False, Publish jsonData,
                      Next (Inr None)]"
    using l srcs r by (simp only: state.simps last_request_def option.case append.simps)
  ultimately show ?thesis
    using p run by blast
qed


lemma example_sources: "filterByURL (data exampleRegistry) [csvData] ''csv://data/a'' = [csvData]"
  by (simp add: example_defs)

theorem convertByURL_returns_last_witness:
  "produce 3 exampleRegistry
     (convert (converters exampleRegistry)
        (filterByURL (data exampleRegistry) (store \<lparr>store = [csvData], log = []\<rparr>) ''csv://data/a'')
        ''application/json'')
     (store \<lparr>store = [csvData], log = []\<rparr>) = Some ([csvData, jsonData], None)
   \<and> [csvData, jsonData] \<noteq> []
   \<and> (\<exists>\<sigma>'. convertByURL exampleRegistry ''csv://data/a'' ''application/json''
               \<lparr>store = [csvData], log = []\<rparr> = Some (Inr (Some jsonData), \<sigma>'))
   \<and> produce 2 exampleRegistry
     (convert (converters exampleRegistry)
        (filterByURL (data exampleRegistry) (store \<lparr>store = [csvData], log = []\<rparr>) ''csv://data/a'')
        ''text/csv'')
     (store \<lparr>store = [csvData], log = []\<rparr>) = Some ([csvData], None)
   \<and> contains (data exampleRegistry) (store \<lparr>store = [csvData], log = []\<rparr>) csvData
   \<and> convertByURL exampleRegistry ''csv://data/a'' ''text/csv'' \<lparr>store = [csvData], log = []\<rparr>
       = Some (Inr (Some csvData),
               \<lparr>store = [csvData],
                log = [FilterByURL ''csv://data/a'', Convert [csvData] ''text/csv'',
                       Next (Inr (Some csvData)), Contains csvData True, Next (Inr None)]\<rparr>)"
proof -
  have p: "produce 3 exampleRegistry
     (convert (converters exampleRegistry)
        (filterByURL (data exampleRegistry) (store \<lparr>store = [csvData], log = []\<rparr>) ''csv://data/a'')
        ''application/json'')
     (store \<lparr>store = [csvData], log = []\<rparr>) = Some ([csvData, jsonData], None)"
    by (simp add: example_defs numeral_3_eq_3)
  have q: "produce 2 exampleRegistry
     (convert (converters exampleRegistry)
        (filterByURL (data exampleRegistry) (store \<lparr>store = [csvData], log = []\<rparr>) ''csv://data/a'')
        ''text/csv'')
     (store \<lparr>store = [csvData], log = []\<rparr>) = Some ([csvData], None)"
    by (simp add: example_defs numeral_2_eq_2)
  have c: "contains (data exampleRegistry) (store \<lparr>store = [csvData], log = []\<rparr>) csvData"
    by (simp add: example_defs)
  have ne: "[csvData, jsonData] \<noteq> []" "[csvData] \<noteq> []"
    by simp_all
  from convertByURL_returns_last [OF p ne(1)]
  have a: "\<exists>\<sigma>'. convertByURL exampleRegistry ''csv://data/a'' ''application/json''
               \<lparr>store = [csvData], log = []\<rparr> = Some (Inr (Some jsonData), \<sigma>')"
    by simp
  from convertByURL_returns_last [OF q ne(2)] c
  have "convertByURL exampleRegistry ''csv://data/a'' ''text/csv'' \<lparr>store = [csvData], log = []\<rparr>
       = Some (Inr (Some csvData),
               \<lparr>store = [csvData], log = []\<rparr>\<lparr>log := log \<lparr>store = [csvData], log = []\<rparr>
                  @ [FilterByURL ''csv://data/a'',
                     Convert (filterByURL (data exampleRegistry)
                        (store \<lparr>store = [csvData], log = []\<rparr>) ''csv://data/a'') ''text/csv'',
                     Next (Inr (Some csvData)), Contains csvData True, Next (Inr None)]\<rparr>)"
    by blast
  then have b: "convertByURL exampleRegistry ''csv://data/a'' ''text/csv''
        \<lparr>store = [csvData], log = []\<rparr>
       = Some (Inr (Some csvData),
               \<lparr>store = [csvData],
                log = [FilterByURL ''csv://data/a'', Convert [csvData] ''text/csv'',
                       Next (Inr (Some csvData)), Contains csvData True, Next (Inr None)]\<rparr>)"
    by (simp add: example_sources)
  from p q c a b show ?thesis
    by blast
qed





lemma table_run:
  "convertByURL exampleRegistry ''csv://data/a'' ''viewer:Table'' \<lparr>store = [csvData], log = []\<rparr>
     = Some (Inr (Some tableViewer),
             \<lparr>store = [csvData, jsonData, tableViewer],
              log = [FilterByURL ''csv://data/a'', Convert [csvData] ''viewer:Table'',
                     Next (Inr (Some csvData)), Contains csvData True,
                     Next (Inr (Some jsonData)), Contains jsonData False, Publish jsonData,
                     Next (Inr (Some tableViewer)), Contains tableViewer False,
                     Publish tableViewer, Next (Inr None)]\<rparr>)"
proof -
  have p: "produce 4 exampleRegistry
     (convert (converters exampleRegistry)
        (filterByURL (data exampleRegistry) (store \<lparr>store = [csvData], log = []\<rparr>) ''csv://data/a'')
        ''viewer:Table'')
     (store \<lparr>store = [csvData], log = []\<rparr>) = Some ([csvData, jsonData, tableViewer], None)"
    by (simp add: example_defs eval_nat_numeral)
  have r: "rounds exampleRegistry [csvData] [csvData, jsonData, tableViewer]
      = [Next (Inr (Some csvData)), Contains csvData True,
         Next (Inr (Some jsonData)), Contains jsonData False, Publish jsonData,
         Next (Inr (Some tableViewer)), Contains tableViewer False, Publish tableViewer]"
    by (simp add: example_defs)
  have f: "fold (\<lambda>d s. after_body exampleRegistry s d) [csvData, jsonData, tableViewer] [csvData]
      = [csvData, jsonData, tableViewer]"
    by (simp add: example_defs)
  have "convertByURL exampleRegistry ''csv://data/a'' ''viewer:Table''
      \<lparr>store = [csvData], log = []\<rparr>
     = Some (Inr (Some tableViewer),
         \<lparr>store = [csvData], log = []\<rparr>
         \<lparr>store := fold (\<lambda>d s. after_body exampleRegistry s d)
              [csvData, jsonData, tableViewer] [csvData],
           log := [] @ [FilterByURL ''csv://data/a'', Convert [csvData] ''viewer:Table'']
                    @ rounds exampleRegistry [csvData] [csvData, jsonData, tableViewer]
                    @ [last_request None]\<rparr>)"
    using convertByURL_produce [OF p] by (simp only: example_sources state.simps) simp
  then show ?thesis
    unfolding r f by (simp add: last_request_def)
qed

theorem viewURL_steps_witness:
  "convertByURL exampleRegistry ''csv://data/a'' (createViewerMimeType csvImports ''Table'')
     \<lparr>store = [csvData], log = []\<rparr>
     = Some (Inr (Some tableViewer),
             \<lparr>store = [csvData, jsonData, tableViewer],
              log = [FilterByURL ''csv://data/a'', Convert [csvData] ''viewer:Table'',
                     Next (Inr (Some csvData)), Contains csvData True,
                     Next (Inr (Some jsonData)), Contains jsonData False, Publish jsonData,
                     Next (Inr (Some tableViewer)), Contains tableViewer False,
                     Publish tableViewer, Next (Inr None)]\<rparr>)
   \<and> dataset_data tableViewer = Callable None
   \<and> viewURL csvImports exampleRegistry ''csv://data/a'' ''Table'' \<lparr>store = [csvData], log = []\<rparr>
     = Some (Inr (),
             \<lparr>store = [csvData, jsonData, tableViewer],
              log = [FilterByURL ''csv://data/a'', Convert [csvData] ''viewer:Table'',
                     Next (Inr (Some csvData)), Contains csvData True,
                     Next (Inr (Some jsonData)), Contains jsonData False, Publish jsonData,
                     Next (Inr (Some tableViewer)), Contains tableViewer False,
                     Publish tableViewer, Next (Inr None), DataCall tableViewer]\<rparr>)"
proof -
  have enc: "createViewerMimeType csvImports ''Table'' = ''viewer:Table''"
    by (simp add: csvImports_def viewerPrefix_def)
  have acc: "dataset_data tableViewer = Callable None"
    by (simp add: tableViewer_def)
  note run = table_run [folded enc]
  from viewURL_steps [OF run acc] run acc show ?thesis
    by (simp add: enc)
qed

lemma csvImports_decodes: "decodes_encoding csvImports"
proof -
  have "viewerPrefix @ drop (length viewerPrefix) m = m"
    if "take (length viewerPrefix) m = viewerPrefix" for m
    using append_take_drop_id [of "length viewerPrefix" m] that by simp
  then show ?thesis
    by (auto simp: decodes_encoding_def csvImports_def split: if_splits)
qed

lemma example_possible:
  "''viewer:Table''
     |\<in>| fst (possibleMimeTypesForURL exampleRegistry ''csv://data/a'' \<lparr>store = [csvData], log = []\<rparr>)"
proof -
  have seeds: "mimeTypesForURL (data exampleRegistry) [csvData] ''csv://data/a'' = {|''text/csv''|}"
    by (simp add: exampleRegistry_def listStore_def csvData_def
        del: fset_of_list_map fset_of_list_filter)
  have "''viewer:Table'' |\<in>| reachable exampleConverters {|''text/csv''|}"
    by (simp add: reachable.simps expand_def exampleConverters_def)
  then show ?thesis
    by (simp add: possibleMimeTypesForURL_def Let_def seeds)
      (simp add: exampleRegistry_def graphConverters_def)
qed

theorem viewersForURL_labels_witness:
  "decodes_encoding csvImports
   \<and> ''Table'' |\<in>| fst (viewersForURL csvImports exampleRegistry ''csv://data/a''
                         \<lparr>store = [csvData], log = []\<rparr>)
   \<and> createViewerMimeType csvImports ''Table''
       |\<in>| fst (possibleMimeTypesForURL exampleRegistry ''csv://data/a''
                  \<lparr>store = [csvData], log = []\<rparr>)"
proof -
  have dec: "extractViewerLabel csvImports ''viewer:Table'' = Some ''Table''"
    by (simp add: csvImports_def viewerPrefix_def)
  note T = viewersForURL_labels [where M = csvImports and R = exampleRegistry
      and u = "''csv://data/a''" and \<sigma> = "\<lparr>store = [csvData], log = []\<rparr>" and l = "''Table''"]
  from T example_possible dec
  have mem: "''Table'' |\<in>| fst (viewersForURL csvImports exampleRegistry ''csv://data/a''
                         \<lparr>store = [csvData], log = []\<rparr>)"
    by blast
  with T csvImports_decodes show ?thesis
    by blast
qed

end
